theory Spec2Isabelle
  imports Main "HOL-Library.Sublist"
begin

section \<open>The form engine of rasa\_core/policies/plans.py\<close>

text \<open>
  A shallow embedding of the class \<open>SimpleForm\<close> and of the action \<open>PlanComplete\<close>.
  Python methods whose names start with an underscore lose it here
  (\<open>_process_rules\<close> is \<open>process_rules\<close>), since an Isabelle name cannot start with one.
  Every method that assigns to an attribute of \<open>self\<close> takes the instance and returns the
  updated one; a method without any assignment is a function of the instance only.
  An exception is a value \<open>Inl e\<close>; the instance returned beside it is the instance as
  the assignments executed before the raise have left it.
\<close>

subsection \<open>Data\<close>

type_synonym slot = string
type_synonym action = string
type_synonym intent = string

text \<open>
  The exceptions the modelled code can raise. \<open>AttributeError\<close>: a method called on
  \<open>None\<close>; \<open>KeyError\<close>: a missing dictionary key; \<open>TypeError\<close>: \<open>in\<close> applied to \<open>None\<close>;
  \<open>NotFound\<close>: whatever the domain registry raises for a name it does not know.
\<close>

datatype error = AttributeError | KeyError | TypeError | NotFound

text \<open>
  A slot value is \<open>None\<close> or a proper (hashable) value of type \<open>'v\<close>.
  A leaf of the rule specification is a dictionary with the optional keys
  \<open>need\<close> and \<open>lose\<close>. The nested rule specification is iterated with \<open>.items()\<close>,
  so it is kept as the list of its items, at both levels.
\<close>

type_synonym leaf = "string \<rightharpoonup> slot list"
type_synonym 'v rules_spec = "(slot \<times> ('v option \<times> leaf) list) list"
type_synonym 'v rule_dict = "(slot \<times> 'v option) \<rightharpoonup> (slot list option \<times> slot list option)"

text \<open>
  An entry of the queue is an action name, or a whole list of action names where the
  code appends a list to the queue as one element.
\<close>

datatype qentry = Act action | Nested "action list"

text \<open>
  The instance. \<open>current_required\<close> and \<open>required_slots\<close> are Python lists built from
  sets and dictionary keys and used only through \<open>set(...)\<close> and a random draw, so
  they are sets here. \<open>exit_dict\<close>, \<open>chitchat_dict\<close>, \<open>details_intent\<close>, \<open>optional_slots\<close>,
  \<open>rules\<close> and \<open>subject\<close> default to \<open>None\<close> in the constructor's signature.
\<close>

record 'v SimpleForm =
  name :: string
  slot_dict :: "slot \<rightharpoonup> (string \<rightharpoonup> action)"
  current_required :: "slot set"
  required_slots :: "slot set"
  optional_slots :: "slot list option"
  exit_dict :: "(intent \<rightharpoonup> action) option"
  chitchat_dict :: "(intent \<rightharpoonup> action) option"
  finish_action :: action
  details_intent :: "intent list option"
  rules_yaml :: "'v rules_spec option"
  rules :: "'v rule_dict option"
  subject :: "string option"
  last_question :: "slot option"
  queue :: "qentry list"

text \<open>
  What the code reads of the tracker: the items of \<open>current_slot_values()\<close>, the name
  of the latest intent (\<open>latest_message.parse_data['intent']['name']\<close>) and
  \<open>latest_action_name\<close>. What it reads of the domain: \<open>index_for_action\<close>, applied to
  whatever the queue holds.
\<close>

record 'v tracker =
  current_slot_values :: "(slot \<times> 'v option) list"
  latest_intent :: string
  latest_action_name :: string

record domain =
  index_for_action :: "qentry \<Rightarrow> error + nat"

datatype event = EndPlan | SlotSet string bool

subsection \<open>String operations of Python\<close>

text \<open>\<open>s.replace(old, new, 1)\<close>: the first occurrence of \<open>old\<close> in \<open>s\<close>, wherever it
  stands, is replaced.\<close>

fun replace_first :: "string \<Rightarrow> string \<Rightarrow> string \<Rightarrow> string" where
  "replace_first old new [] = (if old = [] then new else [])"
| "replace_first old new (c # cs) =
     (if prefix old (c # cs) then new @ drop (length old) (c # cs)
      else c # replace_first old new cs)"

text \<open>\<open>sub in s\<close> on strings: \<open>sub\<close> occurs in \<open>s\<close> as a contiguous piece.\<close>

fun str_contains :: "string \<Rightarrow> string \<Rightarrow> bool" where
  "str_contains sub [] = (sub = [])"
| "str_contains sub (c # cs) = (prefix sub (c # cs) \<or> str_contains sub cs)"

subsection \<open>The constructor and the rule table\<close>

fun process_values :: "slot \<Rightarrow> ('v option \<times> leaf) list \<Rightarrow> 'v rule_dict \<Rightarrow> 'v rule_dict" where
  "process_values sl [] rule_dict = rule_dict"
| "process_values sl ((val, lf) # rest) rule_dict =
     process_values sl rest (rule_dict((sl, val) \<mapsto> (lf ''need'', lf ''lose'')))"

fun process_slots :: "'v rules_spec \<Rightarrow> 'v rule_dict \<Rightarrow> 'v rule_dict" where
  "process_slots [] rule_dict = rule_dict"
| "process_slots ((sl, vals) # rest) rule_dict =
     process_slots rest (process_values sl vals rule_dict)"

text \<open>\<open>rules.items()\<close> on \<open>None\<close> raises \<open>AttributeError\<close>.\<close>

definition process_rules :: "'v rules_spec option \<Rightarrow> error + 'v rule_dict" where
  "process_rules rls =
     (case rls of
        None \<Rightarrow> Inl AttributeError
      | Some r \<Rightarrow> Inr (process_slots r Map.empty))"

text \<open>\<open>__init__\<close>. The source binds \<open>required_slots\<close> to the same list object as
  \<open>current_required\<close>; no method changes that list in place (\<open>current_required\<close> is only
  rebound to a new list), so the two are separate values here.\<close>

definition SimpleForm_init ::
  "string \<Rightarrow> (slot \<rightharpoonup> (string \<rightharpoonup> action)) \<Rightarrow> action \<Rightarrow> slot list option \<Rightarrow>
   (intent \<rightharpoonup> action) option \<Rightarrow> (intent \<rightharpoonup> action) option \<Rightarrow> intent list option \<Rightarrow>
   'v rules_spec option \<Rightarrow> string option \<Rightarrow> error + 'v SimpleForm" where
  "SimpleForm_init nm sd fin opt ex chit det rls subj =
     (case process_rules rls of
        Inl e \<Rightarrow> Inl e
      | Inr rd \<Rightarrow>
          Inr \<lparr> name = nm, slot_dict = sd, current_required = dom sd,
                required_slots = dom sd, optional_slots = opt, exit_dict = ex,
                chitchat_dict = chit, finish_action = fin, details_intent = det,
                rules_yaml = rls, rules = Some rd, subject = subj,
                last_question = None, queue = [] \<rparr>)"

subsection \<open>The requirement resolver\<close>

text \<open>The loop of \<open>_update_requirements\<close> over the items of the tracker's slot values,
  with the two accumulators \<open>all_add\<close> and \<open>all_take\<close>.\<close>

fun collect_rules ::
  "'v rule_dict \<Rightarrow> (slot \<times> 'v option) list \<Rightarrow> slot list \<times> slot list \<Rightarrow> slot list \<times> slot list" where
  "collect_rules rd [] (all_add, all_take) = (all_add, all_take)"
| "collect_rules rd (slot_tuple # rest) (all_add, all_take) =
     (case rd slot_tuple of
        None \<Rightarrow> collect_rules rd rest (all_add, all_take)
      | Some (ad, tk) \<Rightarrow>
          collect_rules rd rest
            ((case ad of None \<Rightarrow> all_add | Some a \<Rightarrow> all_add @ a),
             (case tk of None \<Rightarrow> all_take | Some t \<Rightarrow> all_take @ t)))"

definition update_requirements :: "'v tracker \<Rightarrow> 'v SimpleForm \<Rightarrow> 'v SimpleForm" where
  "update_requirements tr s =
     (case rules s of
        None \<Rightarrow> s
      | Some rd \<Rightarrow>
          (case collect_rules rd (current_slot_values tr) ([], []) of
             (all_add, all_take) \<Rightarrow>
               s\<lparr>current_required := (required_slots s \<union> set all_add) - set all_take\<rparr>))"

definition check_unfilled_slots :: "'v tracker \<Rightarrow> 'v SimpleForm \<Rightarrow> slot set" where
  "check_unfilled_slots tr s =
     (let current_filled_slots =
            map fst (filter (\<lambda>(key, val). val \<noteq> None) (current_slot_values tr))
      in current_required s - set current_filled_slots)"

subsection \<open>The queue\<close>

text \<open>\<open>_run_through_queue\<close>: \<open>Inr None\<close> is the Python result \<open>None\<close>. The entry is popped
  before the domain is asked, so it is gone also when the domain raises.\<close>

definition run_through_queue :: "domain \<Rightarrow> 'v SimpleForm \<Rightarrow> (error + nat option) \<times> 'v SimpleForm" where
  "run_through_queue dm s =
     (case queue s of
        [] \<Rightarrow> (Inr None, s)
      | e # rest \<Rightarrow>
          (case index_for_action dm e of
             Inl err \<Rightarrow> (Inl err, s\<lparr>queue := rest\<rparr>)
           | Inr idx \<Rightarrow> (Inr (Some idx), s\<lparr>queue := rest\<rparr>)))"

text \<open>\<open>_make_question_queue\<close>: the ask action is the one of \<open>question\<close>, the follow-up
  is looked up under \<open>self.last_question\<close>. A subscript with a missing key (also the key
  \<open>None\<close>) raises \<open>KeyError\<close>.\<close>

definition make_question_queue :: "'v SimpleForm \<Rightarrow> slot option \<Rightarrow> error + action list" where
  "make_question_queue s question =
     (case question of
        None \<Rightarrow> Inl KeyError
      | Some q \<Rightarrow>
     (case slot_dict s q of
        None \<Rightarrow> Inl KeyError
      | Some d \<Rightarrow>
     (case d ''ask_utt'' of
        None \<Rightarrow> Inl KeyError
      | Some ask \<Rightarrow>
     (case last_question s of
        None \<Rightarrow> Inl KeyError
      | Some lq \<Rightarrow>
     (case slot_dict s lq of
        None \<Rightarrow> Inl KeyError
      | Some ld \<Rightarrow>
     (case ld ''follow_up_action'' of
        None \<Rightarrow> Inr [ask, ''action_listen'']
      | Some fu \<Rightarrow> Inr ([ask, ''action_listen''] @ [fu])))))))"

subsection \<open>The decision function\<close>

text \<open>
  \<open>next_action_idx\<close>. The parameter \<open>choice\<close> stands for \<open>np.random.choice\<close>: it gives
  the element drawn from \<open>still_to_ask\<close>; in a run of the code the element drawn is
  one of \<open>still_to_ask\<close>. The statements are modelled in the order of the source, so an
  exception leaves the assignments made before it.
\<close>

definition next_action_idx ::
  "(slot set \<Rightarrow> slot) \<Rightarrow> 'v tracker \<Rightarrow> domain \<Rightarrow> 'v SimpleForm \<Rightarrow>
   (error + nat option) \<times> 'v SimpleForm" where
  "next_action_idx choice tr dm s0 =
     (case run_through_queue dm s0 of
        (Inl err, s1) \<Rightarrow> (Inl err, s1)
      | (Inr (Some out), s1) \<Rightarrow> (Inr (Some out), s1)
      | (Inr None, s1) \<Rightarrow>
     (let itn = replace_first ''plan_'' '''' (latest_intent tr);
          s2 = update_requirements tr s1
      in
     (case exit_dict s2 of
        None \<Rightarrow> (Inl AttributeError, s2)
      | Some ed \<Rightarrow>
     (if itn \<in> dom ed then
        run_through_queue dm (s2\<lparr>queue := [Act (the (ed itn))]\<rparr>)
      else
     (case chitchat_dict s2 of
        None \<Rightarrow> (Inl AttributeError, s2)
      | Some cd \<Rightarrow>
     (if itn \<in> dom cd \<and> latest_action_name tr \<notin> ran cd then
        (let s3 = s2\<lparr>queue := [Act (the (cd itn))]\<rparr> in
         (case make_question_queue s3 (last_question s3) of
            Inl err \<Rightarrow> (Inl err, s3)
          | Inr qq \<Rightarrow> run_through_queue dm (s3\<lparr>queue := queue s3 @ [Nested qq]\<rparr>)))
      else
     (case details_intent s2 of
        None \<Rightarrow> (Inl TypeError, s2)
      | Some di \<Rightarrow>
     (if itn \<in> set di \<and> \<not> str_contains ''utter_explain'' (latest_action_name tr) then
        (case last_question s2 of
           None \<Rightarrow> (Inl KeyError, s2)
         | Some lq \<Rightarrow>
        (case slot_dict s2 lq of
           None \<Rightarrow> (Inl KeyError, s2)
         | Some ld \<Rightarrow>
        (case ld ''clarify_utt'' of
           None \<Rightarrow> (Inl KeyError, s2)
         | Some clarify_action \<Rightarrow>
            (let s3 = s2\<lparr>queue := [Act clarify_action]\<rparr> in
             (case make_question_queue s3 (last_question s3) of
                Inl err \<Rightarrow> (Inl err, s3)
              | Inr qq \<Rightarrow> run_through_queue dm (s3\<lparr>queue := queue s3 @ [Nested qq]\<rparr>))))))
      else
        (let still_to_ask = check_unfilled_slots tr s2 in
         if still_to_ask = {} then
           run_through_queue dm (s2\<lparr>queue := [Act (finish_action s2), Act ''action_listen'']\<rparr>)
         else
           (let s3 = s2\<lparr>last_question := Some (choice still_to_ask)\<rparr> in
            (case make_question_queue s3 (last_question s3) of
               Inl err \<Rightarrow> (Inl err, s3)
             | Inr qq \<Rightarrow> run_through_queue dm (s3\<lparr>queue := map Act qq\<rparr>))))))))))))"

subsection \<open>The action \<open>PlanComplete\<close>\<close>

text \<open>\<open>PlanComplete.run\<close>, with \<open>tracker.active_plan\<close> as the second argument.\<close>

definition PlanComplete_run :: "'v tracker \<Rightarrow> 'v SimpleForm \<Rightarrow> event list" where
  "PlanComplete_run tr active_plan =
     (let unfilled = check_unfilled_slots tr active_plan;
          complete = (if unfilled = {} then True else False)
      in [EndPlan, SlotSet ''active_plan'' False, SlotSet ''plan_complete'' complete])"

subsection \<open>Closed forms used in the statements\<close>

text \<open>What one entry of the rule table adds to, and removes from, the required slots when
  its key is met: the set of its \<open>need\<close> list, of its \<open>lose\<close> list; nothing where the key
  is not in the table or the component is \<open>None\<close>.\<close>

definition rule_adds :: "'v rule_dict \<Rightarrow> slot \<times> 'v option \<Rightarrow> slot set" where
  "rule_adds rd p = (case rd p of Some (Some a, tk) \<Rightarrow> set a | _ \<Rightarrow> {})"

definition rule_removes :: "'v rule_dict \<Rightarrow> slot \<times> 'v option \<Rightarrow> slot set" where
  "rule_removes rd p = (case rd p of Some (ad, Some t) \<Rightarrow> set t | _ \<Rightarrow> {})"

text \<open>The required set as the specification words it (section 4.2): only the pairs
  of the tracker whose value is not empty are looked up in the rule table.\<close>

definition spec_recompute ::
  "slot set \<Rightarrow> 'v rule_dict \<Rightarrow> (slot \<times> 'v option) list \<Rightarrow> slot set" where
  "spec_recompute base_required rule_table current =
     (base_required \<union> (\<Union>p\<in>set (filter (\<lambda>p. snd p \<noteq> None) current). rule_adds rule_table p))
     - (\<Union>p\<in>set (filter (\<lambda>p. snd p \<noteq> None) current). rule_removes rule_table p)"

text \<open>The instances a program can hold: built by the constructor, then changed by calls
  of the methods that assign to the instance (with any tracker, domain and random draw):
  \<open>next_action_idx\<close>, and the two helpers it calls, should they be called from outside.\<close>

inductive constructed :: "'v SimpleForm \<Rightarrow> bool" where
  by_init: "SimpleForm_init nm sd fin opt ex chit det rls subj = Inr s \<Longrightarrow> constructed s"
| by_call: "constructed s \<Longrightarrow> next_action_idx choice tr dm s = (out, s') \<Longrightarrow> constructed s'"
| by_update: "constructed s \<Longrightarrow> constructed (update_requirements tr s)"
| by_run: "constructed s \<Longrightarrow> run_through_queue dm s = (out, s') \<Longrightarrow> constructed s'"

subsection \<open>A travel form, for the concrete runs\<close>

definition travel_slots :: "slot \<rightharpoonup> (string \<rightharpoonup> action)" where
  "travel_slots =
     [''origin'' \<mapsto> [''ask_utt'' \<mapsto> ''utter_ask_origin'',
                      ''follow_up_action'' \<mapsto> ''action_check_origin'',
                      ''clarify_utt'' \<mapsto> ''utter_explain_origin''],
      ''mode'' \<mapsto> [''ask_utt'' \<mapsto> ''utter_ask_mode'',
                    ''follow_up_action'' \<mapsto> ''action_check_mode''],
      ''date'' \<mapsto> [''ask_utt'' \<mapsto> ''utter_ask_date'']]"

definition travel_rules :: "string rules_spec" where
  "travel_rules =
     [(''mode'', [(Some ''car'', [''need'' \<mapsto> [''license'']]),
                  (Some ''train'', [''lose'' \<mapsto> [''date'']]),
                  (None, [''need'' \<mapsto> [''budget'']])]),
      (''origin'', [(Some ''Berlin'', [''lose'' \<mapsto> [''license'']])])]"

definition travel_exit :: "intent \<rightharpoonup> action" where
  "travel_exit = [''cancel'' \<mapsto> ''action_cancel_booking'']"

definition travel_chitchat :: "intent \<rightharpoonup> action" where
  "travel_chitchat = [''weather'' \<mapsto> ''utter_weather'', ''cancel'' \<mapsto> ''utter_sorry'']"

definition travel_form :: "string SimpleForm" where
  "travel_form =
     \<lparr> name = ''travel'', slot_dict = travel_slots, current_required = dom travel_slots,
       required_slots = dom travel_slots, optional_slots = Some [''budget''],
       exit_dict = Some travel_exit, chitchat_dict = Some travel_chitchat,
       finish_action = ''action_book'', details_intent = Some [''explain'', ''cancel''],
       rules_yaml = Some travel_rules, rules = Some (process_slots travel_rules Map.empty),
       subject = None, last_question = None, queue = [] \<rparr>"

text \<open>A domain that numbers the action names of a list by their position and knows
  nothing else.\<close>

fun position :: "action list \<Rightarrow> action \<Rightarrow> nat option" where
  "position [] a = None"
| "position (x # xs) a = (if x = a then Some 0 else map_option Suc (position xs a))"

definition listed_domain :: "action list \<Rightarrow> domain" where
  "listed_domain names =
     \<lparr> index_for_action =
         (\<lambda>e. case e of
                 Act a \<Rightarrow> (case position names a of None \<Rightarrow> Inl NotFound | Some i \<Rightarrow> Inr i)
               | Nested l \<Rightarrow> Inl NotFound) \<rparr>"

definition travel_domain :: domain where
  "travel_domain =
     listed_domain [''action_listen'', ''utter_ask_origin'', ''utter_ask_mode'',
                    ''utter_ask_date'', ''action_check_origin'', ''action_check_mode'',
                    ''utter_explain_origin'', ''action_cancel_booking'', ''utter_weather'',
                    ''utter_sorry'', ''action_book'']"

text \<open>Trackers: nothing filled; the origin filled; all base slots filled with the
  mode \<open>car\<close>, leaving from Paris and from Berlin; the intents \<open>cancel\<close> and \<open>weather\<close>.\<close>

definition tracker_empty :: "string tracker" where
  "tracker_empty =
     \<lparr> current_slot_values = [(''origin'', None), (''mode'', None), (''date'', None),
                               (''license'', None), (''budget'', None)],
       latest_intent = ''plan_book'', latest_action_name = ''action_listen'' \<rparr>"

definition tracker_origin :: "string tracker" where
  "tracker_origin =
     \<lparr> current_slot_values = [(''origin'', Some ''Paris''), (''mode'', None), (''date'', None),
                               (''license'', None), (''budget'', None)],
       latest_intent = ''plan_inform'', latest_action_name = ''action_listen'' \<rparr>"

definition tracker_car :: "string tracker" where
  "tracker_car =
     \<lparr> current_slot_values = [(''origin'', Some ''Paris''), (''mode'', Some ''car''),
                               (''date'', Some ''Monday''), (''license'', None),
                               (''budget'', Some ''100'')],
       latest_intent = ''plan_inform'', latest_action_name = ''action_listen'' \<rparr>"

definition tracker_berlin :: "string tracker" where
  "tracker_berlin =
     \<lparr> current_slot_values = [(''origin'', Some ''Berlin''), (''mode'', Some ''car''),
                               (''date'', Some ''Monday''), (''license'', None),
                               (''budget'', Some ''100'')],
       latest_intent = ''plan_inform'', latest_action_name = ''action_listen'' \<rparr>"

definition tracker_cancel :: "string tracker" where
  "tracker_cancel = tracker_car\<lparr>latest_intent := ''plan_cancel''\<rparr>"

definition tracker_weather :: "string tracker" where
  "tracker_weather = tracker_empty\<lparr>latest_intent := ''weather''\<rparr>"

text \<open>The intent as the specification words it (section 4.4, step 2): the latest
  intent with a fixed prefix stripped if present.\<close>

definition strip_prefix :: "string \<Rightarrow> string \<Rightarrow> string" where
  "strip_prefix pre s = (if prefix pre s then drop (length pre) s else s)"

text \<open>The travel form with an exit intent whose name has \<open>plan_\<close> inside, and a tracker
  with that intent and every required slot filled.\<close>

definition reschedule_exit :: "intent \<rightharpoonup> action" where
  "reschedule_exit = [''change_plan_date'' \<mapsto> ''action_cancel_booking'']"

definition reschedule_form :: "string SimpleForm" where
  "reschedule_form = travel_form\<lparr>exit_dict := Some reschedule_exit\<rparr>"

definition tracker_reschedule :: "string tracker" where
  "tracker_reschedule = tracker_berlin\<lparr>latest_intent := ''change_plan_date''\<rparr>"

section \<open>Lemmas shared by the proofs\<close>

lemma collect_rules_sets:
  "collect_rules rd items (a0, t0) = (a1, t1) \<Longrightarrow>
     set a1 = set a0 \<union> (\<Union>p\<in>set items. rule_adds rd p) \<and>
     set t1 = set t0 \<union> (\<Union>p\<in>set items. rule_removes rd p)"
proof (induction items arbitrary: a0 t0)
  case Nil
  then show ?case by simp
next
  case (Cons p items)
  show ?case
  proof (cases "rd p")
    case None
    with Cons.prems have "collect_rules rd items (a0, t0) = (a1, t1)" by simp
    from Cons.IH[OF this] None show ?thesis by (simp add: rule_adds_def rule_removes_def)
  next
    case (Some pr)
    obtain ad tk where pr: "pr = (ad, tk)" by (cases pr)
    let ?a = "(case ad of None \<Rightarrow> a0 | Some a \<Rightarrow> a0 @ a)"
    let ?t = "(case tk of None \<Rightarrow> t0 | Some t \<Rightarrow> t0 @ t)"
    from Cons.prems Some pr have "collect_rules rd items (?a, ?t) = (a1, t1)" by simp
    from Cons.IH[OF this] Some pr show ?thesis
      by (auto simp: rule_adds_def rule_removes_def split: option.splits)
  qed
qed

lemma update_requirements_closed_form:
  assumes "rules s = Some rd"
  shows "update_requirements tr s =
           s\<lparr>current_required :=
               (required_slots s \<union> (\<Union>p\<in>set (current_slot_values tr). rule_adds rd p))
               - (\<Union>p\<in>set (current_slot_values tr). rule_removes rd p)\<rparr>"
proof -
  obtain a1 t1 where c: "collect_rules rd (current_slot_values tr) ([], []) = (a1, t1)"
    by (cases "collect_rules rd (current_slot_values tr) ([], [])")
  from collect_rules_sets[OF c] c assms show ?thesis
    by (simp add: update_requirements_def)
qed

lemma update_requirements_frame:
  "update_requirements tr s = s\<lparr>current_required := current_required (update_requirements tr s)\<rparr>"
  by (simp add: update_requirements_def split: option.splits prod.splits)

lemma update_requirements_fields:
  "queue (update_requirements tr s) = queue s"
  "exit_dict (update_requirements tr s) = exit_dict s"
  "chitchat_dict (update_requirements tr s) = chitchat_dict s"
  "details_intent (update_requirements tr s) = details_intent s"
  "slot_dict (update_requirements tr s) = slot_dict s"
  "last_question (update_requirements tr s) = last_question s"
  "rules (update_requirements tr s) = rules s"
  "finish_action (update_requirements tr s) = finish_action s"
  by (simp_all add: update_requirements_def split: option.splits prod.splits)

lemma make_question_queue_reads:
  "slot_dict s' = slot_dict s \<Longrightarrow> last_question s' = last_question s \<Longrightarrow>
   make_question_queue s' q = make_question_queue s q"
  by (simp add: make_question_queue_def cong: option.case_cong)

lemma run_through_queue_cons:
  "queue s = e # rest \<Longrightarrow>
   run_through_queue dm s =
     ((case index_for_action dm e of Inl err \<Rightarrow> Inl err | Inr idx \<Rightarrow> Inr (Some idx)),
      s\<lparr>queue := rest\<rparr>)"
  by (simp add: run_through_queue_def split: sum.splits)

lemma travel_form_init:
  "SimpleForm_init ''travel'' travel_slots ''action_book'' (Some [''budget''])
     (Some travel_exit) (Some travel_chitchat) (Some [''explain'', ''cancel''])
     (Some travel_rules) None = Inr travel_form"
  by (simp add: SimpleForm_init_def process_rules_def travel_form_def)

lemma travel_table:
  "process_slots travel_rules Map.empty =
     [(''mode'', Some ''car'') \<mapsto> (Some [''license''], None),
      (''mode'', Some ''train'') \<mapsto> (None, Some [''date'']),
      (''mode'', None) \<mapsto> (Some [''budget''], None),
      (''origin'', Some ''Berlin'') \<mapsto> (None, Some [''license''])]"
  by (simp add: travel_rules_def)

lemma travel_index:
  "index_for_action travel_domain (Act ''action_listen'') = Inr 0"
  "index_for_action travel_domain (Act ''action_cancel_booking'') = Inr 7"
  "index_for_action travel_domain (Act ''utter_weather'') = Inr 8"
  "index_for_action travel_domain (Act ''utter_ask_mode'') = Inr 2"
  by (simp_all add: travel_domain_def listed_domain_def)

text \<open>The intent of line 104: \<open>replace('plan_', '', 1)\<close> strips the prefix \<open>plan_\<close> where the
  name starts with it and leaves a name without \<open>plan_\<close> as it is; a \<open>plan_\<close> inside the
  name is removed too.\<close>

lemma replace_first_prefix:
  "old \<noteq> [] \<Longrightarrow> replace_first old new (old @ s) = new @ s"
  by (cases old) simp_all

lemma replace_first_absent:
  "\<not> str_contains old s \<Longrightarrow> replace_first old new s = s"
  by (induction s) auto

lemma replace_first_inside:
  "replace_first ''plan_'' [] ''replan_cancel'' = ''recancel''"
  by simp

section \<open>The requirement resolver (claim C1)\<close>

text \<open>
  Claim C1, as stated, restricts the pairs looked up in the rule table to those with a
  non-empty value. The loop of \<open>_update_requirements\<close> has no such test: it looks up
  every item of the tracker's slot values, also a slot whose value is \<open>None\<close>. With the
  rule table of the travel form, which has the key \<open>(mode, None)\<close>, and a tracker where
  \<open>mode\<close> is unset, the code requires \<open>budget\<close> and the formula of the claim does not.
\<close>


theorem recompute_counts_unset_slots:
  "''budget'' \<in> current_required (update_requirements tracker_empty travel_form) \<and>
   ''budget'' \<notin> spec_recompute (required_slots travel_form)
                   (process_slots travel_rules Map.empty) (current_slot_values tracker_empty)"
  by (simp add: update_requirements_def travel_form_def travel_table tracker_empty_def
        spec_recompute_def rule_adds_def rule_removes_def travel_slots_def)

text \<open>
  Claim C1, amended: for every rule table, base required set and tracker, the
  recomputation sets \<open>current_required\<close> to (\<open>required_slots\<close> united with the \<open>need\<close> lists
  of every (slot, value) item of the tracker that is a key of the rule table, whether its
  value is empty or not) minus (the union of the \<open>lose\<close> lists of the same items). A slot
  in the accumulator of removals is absent from the result, also when it is in the
  accumulator of additions: removal wins.
\<close>

theorem update_requirements_set:
  assumes "rules s = Some rd"
  shows "current_required (update_requirements tr s) =
           (required_slots s \<union> (\<Union>p\<in>set (current_slot_values tr). rule_adds rd p))
           - (\<Union>p\<in>set (current_slot_values tr). rule_removes rd p)
         \<and> (\<forall>x. x \<in> (\<Union>p\<in>set (current_slot_values tr). rule_removes rd p) \<longrightarrow>
                x \<notin> current_required (update_requirements tr s))"
  using update_requirements_closed_form[OF assms, of tr] by simp

theorem update_requirements_set_witness:
  "rules travel_form = Some (process_slots travel_rules Map.empty) \<and>
   ''license'' \<in> rule_adds (process_slots travel_rules Map.empty) (''mode'', Some ''car'') \<and>
   ''license'' \<in> rule_removes (process_slots travel_rules Map.empty) (''origin'', Some ''Berlin'') \<and>
   ''license'' \<notin> current_required (update_requirements tracker_berlin travel_form) \<and>
   current_required (update_requirements tracker_berlin travel_form) = {''origin'', ''mode'', ''date''}"
proof -
  have r: "rules travel_form = Some (process_slots travel_rules Map.empty)"
    by (simp add: travel_form_def)
  have "current_required (update_requirements tracker_berlin travel_form) =
          {''origin'', ''mode'', ''date''}"
    using update_requirements_set[OF r, of tracker_berlin]
    by (auto simp: travel_form_def travel_table tracker_berlin_def rule_adds_def
          rule_removes_def travel_slots_def)
  with r show ?thesis
    by (simp add: travel_table rule_adds_def rule_removes_def)
qed

section \<open>Draining the queue (claim C2)\<close>

text \<open>
  Claim C2: called with a non-empty queue, \<open>next_action_idx\<close> gives the outcome of the
  domain's lookup of the front entry (its index, or the exception the domain raises) and
  the instance with exactly that entry removed. Every other attribute, among them
  \<open>last_question\<close> and \<open>current_required\<close>, and the order of the remaining entries are as
  before. The result does not depend on the tracker or on the random draw: the intent
  is not read, the requirements are not recomputed, no branch is taken.
\<close>


theorem next_action_idx_drains_front:
  assumes "queue s = e # rest"
  shows "next_action_idx choice tr dm s =
           ((case index_for_action dm e of Inl err \<Rightarrow> Inl err | Inr idx \<Rightarrow> Inr (Some idx)),
            s\<lparr>queue := rest\<rparr>)"
  using assms by (simp add: next_action_idx_def run_through_queue_def split: sum.splits)

theorem next_action_idx_drains_front_witness:
  "queue (travel_form\<lparr>last_question := Some ''origin'',
                      queue := [Act ''action_listen'', Act ''action_check_origin'']\<rparr>)
     = Act ''action_listen'' # [Act ''action_check_origin''] \<and>
   next_action_idx (\<lambda>S. ''mode'') tracker_cancel travel_domain
     (travel_form\<lparr>last_question := Some ''origin'',
                  queue := [Act ''action_listen'', Act ''action_check_origin'']\<rparr>)
     = (Inr (Some 0),
        travel_form\<lparr>last_question := Some ''origin'', queue := [Act ''action_check_origin'']\<rparr>)"
  using next_action_idx_drains_front[of
      "travel_form\<lparr>last_question := Some ''origin'',
                   queue := [Act ''action_listen'', Act ''action_check_origin'']\<rparr>"
      "Act ''action_listen''" "[Act ''action_check_origin'']"
      "\<lambda>S. ''mode''" tracker_cancel travel_domain]
    travel_index(1)
  by simp

section \<open>The exit branch (claim C3)\<close>

text \<open>The default branch with nothing left to ask: the whole step.\<close>

lemma default_branch_finish:
  assumes "queue s = []"
    and "exit_dict s = Some ed"
    and "ed (replace_first ''plan_'' '''' (latest_intent tr)) = None"
    and "chitchat_dict s = Some cd"
    and "cd (replace_first ''plan_'' '''' (latest_intent tr)) = None \<or> latest_action_name tr \<in> ran cd"
    and "details_intent s = Some di"
    and "replace_first ''plan_'' '''' (latest_intent tr) \<notin> set di \<or>
         str_contains ''utter_explain'' (latest_action_name tr)"
    and "check_unfilled_slots tr (update_requirements tr s) = {}"
  shows "next_action_idx choice tr dm s =
           ((case index_for_action dm (Act (finish_action s)) of
               Inl err \<Rightarrow> Inl err | Inr idx \<Rightarrow> Inr (Some idx)),
            (update_requirements tr s)\<lparr>queue := [Act ''action_listen'']\<rparr>)"
proof -
  let ?itn = "replace_first ''plan_'' '''' (latest_intent tr)"
  let ?s2 = "update_requirements tr s"
  have r: "run_through_queue dm
             (?s2\<lparr>queue := [Act (finish_action s), Act ''action_listen'']\<rparr>) =
             ((case index_for_action dm (Act (finish_action s)) of
                 Inl err \<Rightarrow> Inl err | Inr idx \<Rightarrow> Inr (Some idx)),
              ?s2\<lparr>queue := [Act ''action_listen'']\<rparr>)"
    by (simp add: run_through_queue_cons)
  have r0: "run_through_queue dm s = (Inr None, s)"
    using assms(1) by (simp add: run_through_queue_def)
  from assms(3) have x: "(?itn \<in> dom ed) = False"
    by (simp add: domIff)
  from assms(5) have c: "(?itn \<in> dom cd \<and> latest_action_name tr \<notin> ran cd) = False"
    by (auto simp: domIff)
  from assms(7) have e: "(?itn \<in> set di \<and>
                            \<not> str_contains ''utter_explain'' (latest_action_name tr)) = False"
    by auto
  from assms(8) have u: "(check_unfilled_slots tr ?s2 = {}) = True"
    by simp
  have "next_action_idx choice tr dm s =
          run_through_queue dm (?s2\<lparr>queue := [Act (finish_action s), Act ''action_listen'']\<rparr>)"
    unfolding next_action_idx_def r0 Let_def
    by (simp only: prod.case sum.case option.case update_requirements_fields assms(2,4,6)
          x c e u if_False if_True)
  with r show ?thesis by simp
qed

lemma reschedule_intent:
  "replace_first ''plan_'' '''' (latest_intent tracker_reschedule) = ''change_date''"
  by (simp add: tracker_reschedule_def tracker_berlin_def)

lemma reschedule_required:
  "current_required (update_requirements tracker_reschedule reschedule_form)
   = {''origin'', ''mode'', ''date''}"
  by (auto simp: update_requirements_def reschedule_form_def travel_form_def travel_table
        tracker_reschedule_def tracker_berlin_def travel_slots_def)

lemma reschedule_unfilled:
  "check_unfilled_slots tracker_reschedule
     (update_requirements tracker_reschedule reschedule_form) = {}"
  unfolding check_unfilled_slots_def reschedule_required
  by (auto simp: tracker_reschedule_def tracker_berlin_def)

lemma reschedule_facts:
  "queue reschedule_form = []"
  "exit_dict reschedule_form = Some reschedule_exit"
  "reschedule_exit (replace_first ''plan_'' '''' (latest_intent tracker_reschedule)) = None"
  "chitchat_dict reschedule_form = Some travel_chitchat"
  "travel_chitchat (replace_first ''plan_'' '''' (latest_intent tracker_reschedule)) = None
     \<or> latest_action_name tracker_reschedule \<in> ran travel_chitchat"
  "details_intent reschedule_form = Some [''explain'', ''cancel'']"
  "replace_first ''plan_'' '''' (latest_intent tracker_reschedule) \<notin> set [''explain'', ''cancel'']
     \<or> str_contains ''utter_explain'' (latest_action_name tracker_reschedule)"
  unfolding reschedule_intent
  by (simp_all add: reschedule_form_def travel_form_def reschedule_exit_def travel_chitchat_def)

text \<open>
  Claim C3, as stated, takes the exit branch whenever the latest intent with the prefix
  \<open>plan_\<close> stripped is a key of \<open>exit_dict\<close>. Line 104 removes the first \<open>plan_\<close> wherever it
  stands in the name. The intent \<open>change_plan_date\<close> does not start with \<open>plan_\<close>, so
  stripping the prefix leaves it as it is, and it is a key of the exit dictionary, mapped
  to \<open>action_cancel_booking\<close> (index 7). The code looks up \<open>change_date\<close>, which is no
  key of any dictionary; with every required slot filled it takes the default branch,
  gives the index of the finish action (10) and leaves \<open>action_listen\<close> in the queue.
\<close>

theorem exit_missed_for_inner_plan:
  "queue reschedule_form = [] \<and>
   exit_dict reschedule_form = Some reschedule_exit \<and>
   reschedule_exit (strip_prefix ''plan_'' (latest_intent tracker_reschedule))
     = Some ''action_cancel_booking'' \<and>
   index_for_action travel_domain (Act ''action_cancel_booking'') = Inr 7 \<and>
   fst (next_action_idx (\<lambda>S. ''mode'') tracker_reschedule travel_domain reschedule_form)
     = Inr (Some 10) \<and>
   queue (snd (next_action_idx (\<lambda>S. ''mode'') tracker_reschedule travel_domain reschedule_form))
     = [Act ''action_listen'']"
proof -
  have s: "strip_prefix ''plan_'' (latest_intent tracker_reschedule) = ''change_plan_date''"
    by (simp add: strip_prefix_def tracker_reschedule_def tracker_berlin_def)
  have f: "finish_action reschedule_form = ''action_book''"
    by (simp add: reschedule_form_def travel_form_def)
  have b: "index_for_action travel_domain (Act ''action_book'') = Inr 10"
    by (simp add: travel_domain_def listed_domain_def)
  have "next_action_idx (\<lambda>S. ''mode'') tracker_reschedule travel_domain reschedule_form =
          (Inr (Some 10),
           (update_requirements tracker_reschedule reschedule_form)
             \<lparr>queue := [Act ''action_listen'']\<rparr>)"
    using default_branch_finish[where choice = "\<lambda>S. ''mode''" and dm = travel_domain,
        OF reschedule_facts reschedule_unfilled]
    by (simp add: f b)
  then show ?thesis
    unfolding s
    by (simp add: reschedule_facts(1,2) reschedule_exit_def travel_index(2))
qed

text \<open>
  Claim C3, amended: when the queue is empty and the latest intent with the first
  occurrence of \<open>plan_\<close> removed, wherever it stands in the name (the value line 104
  computes; it is the prefix-stripped intent for a name that starts with \<open>plan_\<close> or
  does not contain it), is a key of \<open>exit_dict\<close>, \<open>next_action_idx\<close> gives the domain's
  index of \<open>exit_dict[intent]\<close> and leaves the queue empty; only \<open>current_required\<close> has
  been recomputed. Nothing is assumed about \<open>chitchat_dict\<close> or \<open>details_intent\<close>, so the
  exit branch wins over both, also for an intent that is a key of all three.
\<close>

theorem exit_branch_first:
  assumes "queue s = []"
    and "exit_dict s = Some ed"
    and "ed (replace_first ''plan_'' '''' (latest_intent tr)) = Some a"
  shows "next_action_idx choice tr dm s =
           ((case index_for_action dm (Act a) of Inl err \<Rightarrow> Inl err | Inr idx \<Rightarrow> Inr (Some idx)),
            (update_requirements tr s)\<lparr>queue := []\<rparr>)"
  using assms
  by (simp add: next_action_idx_def run_through_queue_def Let_def update_requirements_fields
        domI split: sum.splits)

theorem exit_branch_first_witness:
  "replace_first ''plan_'' '''' (latest_intent tracker_cancel) = ''cancel'' \<and>
   travel_exit ''cancel'' = Some ''action_cancel_booking'' \<and>
   travel_chitchat ''cancel'' = Some ''utter_sorry'' \<and>
   ''cancel'' \<in> set [''explain'', ''cancel''] \<and>
   fst (next_action_idx (\<lambda>S. ''mode'') tracker_cancel travel_domain
          (travel_form\<lparr>last_question := Some ''origin''\<rparr>)) = Inr (Some 7) \<and>
   queue (snd (next_action_idx (\<lambda>S. ''mode'') tracker_cancel travel_domain
          (travel_form\<lparr>last_question := Some ''origin''\<rparr>))) = []"
proof -
  have i: "replace_first ''plan_'' '''' (latest_intent tracker_cancel) = ''cancel''"
    by (simp add: tracker_cancel_def tracker_car_def)
  have e: "travel_exit (replace_first ''plan_'' '''' (latest_intent tracker_cancel))
             = Some ''action_cancel_booking''"
    unfolding i by (simp add: travel_exit_def)
  have "next_action_idx (\<lambda>S. ''mode'') tracker_cancel travel_domain
          (travel_form\<lparr>last_question := Some ''origin''\<rparr>) =
        (Inr (Some 7),
         (update_requirements tracker_cancel (travel_form\<lparr>last_question := Some ''origin''\<rparr>))
           \<lparr>queue := []\<rparr>)"
    using exit_branch_first[of "travel_form\<lparr>last_question := Some ''origin''\<rparr>" travel_exit
        tracker_cancel "''action_cancel_booking''" "\<lambda>S. ''mode''" travel_domain, OF _ _ e]
      travel_index(2)
    by (simp add: travel_form_def)
  with i show ?thesis
    by (simp add: travel_exit_def travel_chitchat_def)
qed

section \<open>The question queue (claim C4)\<close>

text \<open>
  Claim C4, as stated, has the question queue always end with \<open>action_listen\<close>. The code
  appends the follow-up action after \<open>action_listen\<close>: for the slot \<open>origin\<close> of the travel
  form, which declares a follow-up, the queue has three entries and the last one is the
  follow-up action.
\<close>

theorem question_queue_ends_with_follow_up:
  "make_question_queue (travel_form\<lparr>last_question := Some ''origin''\<rparr>) (Some ''origin'')
     = Inr [''utter_ask_origin'', ''action_listen'', ''action_check_origin''] \<and>
   last [''utter_ask_origin'', ''action_listen'', ''action_check_origin''] \<noteq> ''action_listen''"
  by (simp add: make_question_queue_def travel_form_def travel_slots_def)

text \<open>
  Claim C4, amended: for every slot \<open>q\<close> with a declared ask action, and with
  \<open>last_question\<close> a declared slot (the follow-up is looked up under \<open>last_question\<close>),
  \<open>_make_question_queue\<close> returns the ask action of \<open>q\<close>, then \<open>action_listen\<close>, then the
  follow-up action if one is declared. Its length is 2 without a follow-up and 3 with
  one, never more; its second entry is always \<open>action_listen\<close>; its last entry is
  \<open>action_listen\<close> without a follow-up and the follow-up action with one.
\<close>

theorem make_question_queue_shape:
  assumes "slot_dict s q = Some d"
    and "d ''ask_utt'' = Some ask"
    and "last_question s = Some lq"
    and "slot_dict s lq = Some ld"
  shows "\<exists>qq. make_question_queue s (Some q) = Inr qq \<and>
           qq = [ask, ''action_listen''] @
                  (case ld ''follow_up_action'' of None \<Rightarrow> [] | Some fu \<Rightarrow> [fu]) \<and>
           length qq = (if ld ''follow_up_action'' = None then 2 else 3) \<and>
           qq ! 1 = ''action_listen'' \<and>
           last qq = (case ld ''follow_up_action'' of None \<Rightarrow> ''action_listen'' | Some fu \<Rightarrow> fu)"
  using assms by (simp add: make_question_queue_def split: option.splits)

theorem make_question_queue_shape_witness:
  "make_question_queue (travel_form\<lparr>last_question := Some ''date''\<rparr>) (Some ''mode'')
     = Inr [''utter_ask_mode'', ''action_listen''] \<and>
   make_question_queue (travel_form\<lparr>last_question := Some ''mode''\<rparr>) (Some ''date'')
     = Inr [''utter_ask_date'', ''action_listen'', ''action_check_mode'']"
proof -
  have a: "slot_dict (travel_form\<lparr>last_question := Some ''date''\<rparr>) ''mode''
             = Some [''ask_utt'' \<mapsto> ''utter_ask_mode'', ''follow_up_action'' \<mapsto> ''action_check_mode'']"
    and b: "slot_dict (travel_form\<lparr>last_question := Some ''date''\<rparr>) ''date''
             = Some [''ask_utt'' \<mapsto> ''utter_ask_date'']"
    and a': "slot_dict (travel_form\<lparr>last_question := Some ''mode''\<rparr>) ''mode''
             = Some [''ask_utt'' \<mapsto> ''utter_ask_mode'', ''follow_up_action'' \<mapsto> ''action_check_mode'']"
    and b': "slot_dict (travel_form\<lparr>last_question := Some ''mode''\<rparr>) ''date''
             = Some [''ask_utt'' \<mapsto> ''utter_ask_date'']"
    by (simp_all add: travel_form_def travel_slots_def)
  have "make_question_queue (travel_form\<lparr>last_question := Some ''date''\<rparr>) (Some ''mode'')
          = Inr [''utter_ask_mode'', ''action_listen'']"
    using make_question_queue_shape[OF a _ _ b, of "''utter_ask_mode''"] by simp
  moreover have "make_question_queue (travel_form\<lparr>last_question := Some ''mode''\<rparr>) (Some ''date'')
          = Inr [''utter_ask_date'', ''action_listen'', ''action_check_mode'']"
    using make_question_queue_shape[OF b' _ _ a', of "''utter_ask_date''"] by simp
  ultimately show ?thesis by simp
qed

section \<open>The chitchat branch (claim C5)\<close>

text \<open>
  Claim C5 says that the queue left behind by the chitchat branch is the flat question
  queue: the ask action, \<open>action_listen\<close> and the optional follow-up, each an entry of
  its own. In the code the branch sets the queue to the chitchat action alone and then
  calls \<open>self.queue.append\<close> with the whole question queue, so that list becomes one
  entry. Whenever the branch is taken and the question queue can be built, the call
  gives the domain's index of the chitchat action and leaves a queue of exactly one
  entry, the nested list; the next call hands that list to \<open>index_for_action\<close>.
\<close>

theorem chitchat_branch_nests_question_queue:
  assumes "queue s = []"
    and "exit_dict s = Some ed"
    and "ed (replace_first ''plan_'' '''' (latest_intent tr)) = None"
    and "chitchat_dict s = Some cd"
    and "cd (replace_first ''plan_'' '''' (latest_intent tr)) = Some a"
    and "latest_action_name tr \<notin> ran cd"
    and "make_question_queue s (last_question s) = Inr qq"
  shows "next_action_idx choice tr dm s =
           ((case index_for_action dm (Act a) of Inl err \<Rightarrow> Inl err | Inr idx \<Rightarrow> Inr (Some idx)),
            (update_requirements tr s)\<lparr>queue := [Nested qq]\<rparr>)"
proof -
  let ?s2 = "update_requirements tr s"
  have m: "make_question_queue (?s2\<lparr>queue := [Act a]\<rparr>) (last_question s) = Inr qq"
    using assms(7) make_question_queue_reads[of "?s2\<lparr>queue := [Act a]\<rparr>" s "last_question s"]
    by (simp add: update_requirements_fields)
  show ?thesis
    using assms(1-6) m
    by (simp add: next_action_idx_def run_through_queue_def Let_def update_requirements_fields
          domIff split: sum.splits)
qed

theorem chitchat_branch_nests_question_queue_witness:
  "fst (next_action_idx (\<lambda>S. ''mode'') tracker_weather travel_domain
          (travel_form\<lparr>last_question := Some ''date''\<rparr>)) = Inr (Some 8) \<and>
   queue (snd (next_action_idx (\<lambda>S. ''mode'') tracker_weather travel_domain
          (travel_form\<lparr>last_question := Some ''date''\<rparr>)))
     = [Nested [''utter_ask_date'', ''action_listen'']] \<and>
   [Nested [''utter_ask_date'', ''action_listen'']]
     \<noteq> [Act ''utter_ask_date'', Act ''action_listen'']"
proof -
  let ?s = "travel_form\<lparr>last_question := Some ''date''\<rparr>"
  have i: "replace_first ''plan_'' '''' (latest_intent tracker_weather) = ''weather''"
    by (simp add: tracker_weather_def tracker_empty_def)
  have 1: "queue ?s = []" and 2: "exit_dict ?s = Some travel_exit"
    and 4: "chitchat_dict ?s = Some travel_chitchat"
    by (simp_all add: travel_form_def)
  have 3: "travel_exit (replace_first ''plan_'' '''' (latest_intent tracker_weather)) = None"
    and 5: "travel_chitchat (replace_first ''plan_'' '''' (latest_intent tracker_weather))
              = Some ''utter_weather''"
    unfolding i by (simp_all add: travel_exit_def travel_chitchat_def)
  have 6: "latest_action_name tracker_weather \<notin> ran travel_chitchat"
    by (auto simp: tracker_weather_def tracker_empty_def travel_chitchat_def ran_def)
  have 7: "make_question_queue ?s (last_question ?s) = Inr [''utter_ask_date'', ''action_listen'']"
    by (simp add: make_question_queue_def travel_form_def travel_slots_def)
  show ?thesis
    using chitchat_branch_nests_question_queue[OF 1 2 3 4 5 6 7, of "\<lambda>S. ''mode''" travel_domain]
      travel_index(3)
    by simp
qed

section \<open>The default branch (claim C6)\<close>

text \<open>The default branch with a slot left to ask: the whole step.\<close>

lemma default_branch_ask:
  assumes "queue s = []"
    and "exit_dict s = Some ed"
    and "ed (replace_first ''plan_'' '''' (latest_intent tr)) = None"
    and "chitchat_dict s = Some cd"
    and "cd (replace_first ''plan_'' '''' (latest_intent tr)) = None \<or> latest_action_name tr \<in> ran cd"
    and "details_intent s = Some di"
    and "replace_first ''plan_'' '''' (latest_intent tr) \<notin> set di \<or>
         str_contains ''utter_explain'' (latest_action_name tr)"
    and "check_unfilled_slots tr (update_requirements tr s) \<noteq> {}"
    and "choice (check_unfilled_slots tr (update_requirements tr s)) = chosen"
    and "slot_dict s chosen = Some d"
    and "d ''ask_utt'' = Some ask"
  shows "next_action_idx choice tr dm s =
           ((case index_for_action dm (Act ask) of Inl err \<Rightarrow> Inl err | Inr idx \<Rightarrow> Inr (Some idx)),
            (update_requirements tr s)
              \<lparr>last_question := Some chosen,
               queue := Act ''action_listen'' #
                  (case d ''follow_up_action'' of None \<Rightarrow> [] | Some fu \<Rightarrow> [Act fu])\<rparr>)"
proof -
  let ?itn = "replace_first ''plan_'' '''' (latest_intent tr)"
  let ?s2 = "update_requirements tr s"
  let ?s3 = "?s2\<lparr>last_question := Some chosen\<rparr>"
  let ?fu = "case d ''follow_up_action'' of None \<Rightarrow> [] | Some fu \<Rightarrow> [Act fu]"
  let ?qq = "[ask, ''action_listen''] @
               (case d ''follow_up_action'' of None \<Rightarrow> [] | Some fu \<Rightarrow> [fu])"
  have m: "make_question_queue ?s3 (last_question ?s3) = Inr ?qq"
    using assms(10,11)
    by (simp add: make_question_queue_def update_requirements_fields split: option.splits)
  have q: "map Act ?qq = Act ask # Act ''action_listen'' # ?fu"
    by (simp split: option.splits)
  have r: "run_through_queue dm (?s3\<lparr>queue := map Act ?qq\<rparr>) =
             ((case index_for_action dm (Act ask) of Inl err \<Rightarrow> Inl err | Inr idx \<Rightarrow> Inr (Some idx)),
              ?s3\<lparr>queue := Act ''action_listen'' # ?fu\<rparr>)"
    unfolding q by (simp add: run_through_queue_cons)
  have r0: "run_through_queue dm s = (Inr None, s)"
    using assms(1) by (simp add: run_through_queue_def)
  from assms(3) have x: "(?itn \<in> dom ed) = False"
    by (simp add: domIff)
  from assms(5) have c: "(?itn \<in> dom cd \<and> latest_action_name tr \<notin> ran cd) = False"
    by (auto simp: domIff)
  from assms(7) have e: "(?itn \<in> set di \<and>
                            \<not> str_contains ''utter_explain'' (latest_action_name tr)) = False"
    by auto
  from assms(8) have u: "(check_unfilled_slots tr ?s2 = {}) = False"
    by simp
  have "next_action_idx choice tr dm s = run_through_queue dm (?s3\<lparr>queue := map Act ?qq\<rparr>)"
    unfolding next_action_idx_def r0 Let_def
    by (simp only: prod.case sum.case option.case update_requirements_fields assms(2,4,6,9)
          x c e u m if_False)
  with r show ?thesis by simp
qed

text \<open>The travel form after \<open>origin\<close> has been asked and filled: \<open>mode\<close>, \<open>date\<close> and
  \<open>budget\<close> are left to ask, and the premises of the default branch hold.\<close>

lemma travel_required_origin:
  "current_required
     (update_requirements tracker_origin (travel_form\<lparr>last_question := Some ''origin''\<rparr>))
   = {''origin'', ''mode'', ''date'', ''budget''}"
  by (auto simp: update_requirements_def travel_form_def travel_table
        tracker_origin_def travel_slots_def)

lemma tracker_origin_unfilled:
  "check_unfilled_slots tracker_origin
     (update_requirements tracker_origin (travel_form\<lparr>last_question := Some ''origin''\<rparr>))
   = {''mode'', ''date'', ''budget''}"
  unfolding check_unfilled_slots_def travel_required_origin
  by (auto simp: tracker_origin_def)

lemma travel_origin_intent:
  "replace_first ''plan_'' '''' (latest_intent tracker_origin) = ''inform''"
  by (simp add: tracker_origin_def)

lemma travel_origin_facts:
  "queue (travel_form\<lparr>last_question := Some ''origin''\<rparr>) = []"
  "exit_dict (travel_form\<lparr>last_question := Some ''origin''\<rparr>) = Some travel_exit"
  "travel_exit (replace_first ''plan_'' '''' (latest_intent tracker_origin)) = None"
  "chitchat_dict (travel_form\<lparr>last_question := Some ''origin''\<rparr>) = Some travel_chitchat"
  "travel_chitchat (replace_first ''plan_'' '''' (latest_intent tracker_origin)) = None
     \<or> latest_action_name tracker_origin \<in> ran travel_chitchat"
  "details_intent (travel_form\<lparr>last_question := Some ''origin''\<rparr>) = Some [''explain'', ''cancel'']"
  "replace_first ''plan_'' '''' (latest_intent tracker_origin) \<notin> set [''explain'', ''cancel'']
     \<or> str_contains ''utter_explain'' (latest_action_name tracker_origin)"
  "check_unfilled_slots tracker_origin
     (update_requirements tracker_origin (travel_form\<lparr>last_question := Some ''origin''\<rparr>)) \<noteq> {}"
  unfolding travel_origin_intent tracker_origin_unfilled
  by (simp_all add: travel_form_def travel_exit_def travel_chitchat_def)

lemma travel_mode_entry:
  "slot_dict (travel_form\<lparr>last_question := Some ''origin''\<rparr>) ''mode''
     = Some [''ask_utt'' \<mapsto> ''utter_ask_mode'', ''follow_up_action'' \<mapsto> ''action_check_mode'']"
  by (simp add: travel_form_def travel_slots_def)

text \<open>
  Claim C6, as stated, has the follow-up of the previously asked slot appended when a
  new slot is chosen. The code assigns the chosen slot to \<open>last_question\<close> first and
  builds the queue afterwards. In the travel form with \<open>origin\<close> asked before and \<open>mode\<close>
  drawn now, the queue left after the ask action is \<open>action_listen\<close> and the follow-up of
  \<open>mode\<close>; the follow-up declared for \<open>origin\<close> is not in it.
\<close>

theorem follow_up_not_of_previous_slot:
  "last_question (travel_form\<lparr>last_question := Some ''origin''\<rparr>) = Some ''origin'' \<and>
   map_option (\<lambda>d. d ''follow_up_action'') (travel_slots ''origin'')
     = Some (Some ''action_check_origin'') \<and>
   ''mode'' \<in> check_unfilled_slots tracker_origin
       (update_requirements tracker_origin (travel_form\<lparr>last_question := Some ''origin''\<rparr>)) \<and>
   fst (next_action_idx (\<lambda>S. ''mode'') tracker_origin travel_domain
          (travel_form\<lparr>last_question := Some ''origin''\<rparr>)) = Inr (Some 2) \<and>
   queue (snd (next_action_idx (\<lambda>S. ''mode'') tracker_origin travel_domain
          (travel_form\<lparr>last_question := Some ''origin''\<rparr>)))
     = [Act ''action_listen'', Act ''action_check_mode'']"
proof -
  have "next_action_idx (\<lambda>S. ''mode'') tracker_origin travel_domain
          (travel_form\<lparr>last_question := Some ''origin''\<rparr>) =
        (Inr (Some 2),
         (update_requirements tracker_origin (travel_form\<lparr>last_question := Some ''origin''\<rparr>))
           \<lparr>last_question := Some ''mode'',
            queue := [Act ''action_listen'', Act ''action_check_mode'']\<rparr>)"
    using default_branch_ask[where choice = "\<lambda>S. ''mode''" and dm = travel_domain
        and ask = "''utter_ask_mode''", OF travel_origin_facts refl travel_mode_entry]
      travel_index(4)
    by simp
  then show ?thesis
    unfolding tracker_origin_unfilled
    by (simp add: travel_slots_def)
qed

text \<open>
  Claim C6, amended: in the default branch, when the engine chooses a new unfilled
  required slot to ask (a declared slot with an ask action), \<open>last_question\<close> is set to
  the chosen slot before the question queue is built. The call gives the domain's index
  of the chosen slot's ask action and leaves \<open>action_listen\<close> followed by the follow-up
  declared for the slot newly chosen in this call, when it declares one. The slot
  asked before this call plays no part.
\<close>

theorem follow_up_of_chosen_slot:
  assumes "queue s = []"
    and "exit_dict s = Some ed"
    and "ed (replace_first ''plan_'' '''' (latest_intent tr)) = None"
    and "chitchat_dict s = Some cd"
    and "cd (replace_first ''plan_'' '''' (latest_intent tr)) = None \<or> latest_action_name tr \<in> ran cd"
    and "details_intent s = Some di"
    and "replace_first ''plan_'' '''' (latest_intent tr) \<notin> set di \<or>
         str_contains ''utter_explain'' (latest_action_name tr)"
    and "check_unfilled_slots tr (update_requirements tr s) \<noteq> {}"
    and "choice (check_unfilled_slots tr (update_requirements tr s)) = chosen"
    and "slot_dict s chosen = Some d"
    and "d ''ask_utt'' = Some ask"
  shows "fst (next_action_idx choice tr dm s) =
           (case index_for_action dm (Act ask) of Inl err \<Rightarrow> Inl err | Inr idx \<Rightarrow> Inr (Some idx)) \<and>
         last_question (snd (next_action_idx choice tr dm s)) = Some chosen \<and>
         queue (snd (next_action_idx choice tr dm s)) =
           Act ''action_listen'' #
             (case d ''follow_up_action'' of None \<Rightarrow> [] | Some fu \<Rightarrow> [Act fu])"
  unfolding default_branch_ask[where choice = choice and chosen = chosen and s = s and tr = tr
      and dm = dm, OF assms]
  by simp

theorem follow_up_of_chosen_slot_witness:
  "fst (next_action_idx (\<lambda>S. ''mode'') tracker_origin travel_domain
          (travel_form\<lparr>last_question := Some ''origin''\<rparr>)) = Inr (Some 2) \<and>
   last_question (snd (next_action_idx (\<lambda>S. ''mode'') tracker_origin travel_domain
          (travel_form\<lparr>last_question := Some ''origin''\<rparr>))) = Some ''mode'' \<and>
   queue (snd (next_action_idx (\<lambda>S. ''mode'') tracker_origin travel_domain
          (travel_form\<lparr>last_question := Some ''origin''\<rparr>)))
     = [Act ''action_listen'', Act ''action_check_mode'']"
  using follow_up_of_chosen_slot[where choice = "\<lambda>S. ''mode''" and dm = travel_domain
      and ask = "''utter_ask_mode''", OF travel_origin_facts refl travel_mode_entry]
    travel_index(4)
  by simp

section \<open>The completion check (claim C7)\<close>

lemma filled_slot_iff:
  "x \<in> set (map fst (filter (\<lambda>(key, val). val \<noteq> None) items)) \<longleftrightarrow>
   (\<exists>v. (x, Some v) \<in> set items)"
  by (induction items) auto

lemma check_unfilled_slots_empty:
  "(check_unfilled_slots tr s = {}) =
     (\<forall>x\<in>current_required s. \<exists>v. (x, Some v) \<in> set (current_slot_values tr))"
proof -
  have "(check_unfilled_slots tr s = {}) =
          (\<forall>x\<in>current_required s.
             x \<in> set (map fst (filter (\<lambda>(key, val). val \<noteq> None) (current_slot_values tr))))"
    unfolding check_unfilled_slots_def Let_def Diff_eq_empty_iff by (rule subset_eq)
  then show ?thesis
    by (simp only: filled_slot_iff)
qed

text \<open>
  Claim C7, as stated, has the completion check recompute the required slots through
  the rule table from the tracker's current slot values. \<open>PlanComplete.run\<close> calls
  \<open>check_unfilled_slots\<close> only, which reads the stored \<open>current_required\<close>;
  \<open>_update_requirements\<close> is not called. For the travel form as constructed and a
  tracker with the mode \<open>car\<close>, the check reports complete, although the rule of
  \<open>(mode, car)\<close> requires \<open>license\<close>, which is unfilled: after a recomputation
  \<open>license\<close> is left to ask.
\<close>

theorem completion_uses_stored_requirements:
  "PlanComplete_run tracker_car travel_form =
     [EndPlan, SlotSet ''active_plan'' False, SlotSet ''plan_complete'' True] \<and>
   check_unfilled_slots tracker_car (update_requirements tracker_car travel_form) = {''license''}"
proof -
  have "current_required (update_requirements tracker_car travel_form)
          = {''origin'', ''mode'', ''date'', ''license''}"
    by (auto simp: update_requirements_def travel_form_def travel_table tracker_car_def
          travel_slots_def)
  then have "check_unfilled_slots tracker_car (update_requirements tracker_car travel_form)
          = {''license''}"
    unfolding check_unfilled_slots_def Let_def by (simp add: tracker_car_def)
  moreover have "PlanComplete_run tracker_car travel_form =
     [EndPlan, SlotSet ''active_plan'' False, SlotSet ''plan_complete'' True]"
    unfolding PlanComplete_run_def Let_def check_unfilled_slots_empty
    by (simp add: travel_form_def travel_slots_def tracker_car_def)
  ultimately show ?thesis by simp
qed

text \<open>
  Claim C7, amended: the completion check reports complete exactly when every slot in
  the instance's stored \<open>current_required\<close> (as the latest decision cycle of
  \<open>next_action_idx\<close> left it, or the base required slots if none has run; not recomputed by
  the check) has a non-null value in the tracker. \<open>PlanComplete.run\<close> and
  \<open>check_unfilled_slots\<close> assign to nothing, so they are functions of the tracker's slot
  values and of \<open>current_required\<close>: a second call with no mutation between gives the same
  result.
\<close>

theorem plan_complete_flag:
  "PlanComplete_run tr s =
     [EndPlan, SlotSet ''active_plan'' False,
      SlotSet ''plan_complete''
        (\<forall>x\<in>current_required s. \<exists>v. (x, Some v) \<in> set (current_slot_values tr))]"
proof -
  let ?filled = "\<forall>x\<in>current_required s. \<exists>v. (x, Some v) \<in> set (current_slot_values tr)"
  have "(if check_unfilled_slots tr s = {} then True else False) = ?filled"
    unfolding check_unfilled_slots_empty by simp
  then show ?thesis
    by (simp add: PlanComplete_run_def Let_def)
qed

theorem plan_complete_flag_witness:
  "PlanComplete_run tracker_empty travel_form =
     [EndPlan, SlotSet ''active_plan'' False, SlotSet ''plan_complete'' False] \<and>
   PlanComplete_run tracker_berlin travel_form =
     [EndPlan, SlotSet ''active_plan'' False, SlotSet ''plan_complete'' True]"
  unfolding plan_complete_flag
  by (auto simp: travel_form_def travel_slots_def tracker_empty_def tracker_berlin_def)

section \<open>Rules naming undeclared slots (claim C8)\<close>

text \<open>
  Claim C8, as stated, has the constructor reject, with a \<open>MalformedRule\<close> error, rules
  that mention a slot declared neither in the slot dictionary nor in the optional slots.
  The constructor and \<open>_process_rules\<close> never look at the names in the \<open>need\<close> and \<open>lose\<close>
  lists, and the module has no such error. The travel form is constructed although its
  rules name \<open>license\<close>, which is in neither place, and the rule is applied: with the mode
  \<open>car\<close>, \<open>license\<close> becomes required.
\<close>


theorem undeclared_rule_slot_accepted:
  "SimpleForm_init ''travel'' travel_slots ''action_book'' (Some [''budget''])
     (Some travel_exit) (Some travel_chitchat) (Some [''explain'', ''cancel''])
     (Some travel_rules) None = Inr travel_form \<and>
   ''license'' \<notin> dom travel_slots \<and> ''license'' \<notin> set [''budget''] \<and>
   ''license'' \<in> current_required (update_requirements tracker_car travel_form)"
proof -
  have "''license'' \<in> current_required (update_requirements tracker_car travel_form)"
    by (auto simp: update_requirements_def travel_form_def travel_table tracker_car_def
          travel_slots_def)
  with travel_form_init show ?thesis
    by (simp add: travel_slots_def)
qed

text \<open>
  Claim C8, amended: constructing a plan definition with a rules mapping always
  succeeds, whatever slot names its \<open>need\<close> and \<open>lose\<close> lists mention. No validation
  against the slot dictionary or the optional slots takes place, and the instance holds
  the rule table compiled from the rules as they are written, so a rule that names an
  undeclared slot is in force at runtime like any other: on the constructed instance
  the requirement resolver adds the \<open>need\<close> lists and removes the \<open>lose\<close> lists of that
  table, whatever names they hold.
\<close>

theorem init_never_rejects_rules:
  "SimpleForm_init nm sd fin opt ex chit det (Some r) subj =
     Inr \<lparr> name = nm, slot_dict = sd, current_required = dom sd,
           required_slots = dom sd, optional_slots = opt, exit_dict = ex,
           chitchat_dict = chit, finish_action = fin, details_intent = det,
           rules_yaml = Some r, rules = Some (process_slots r Map.empty), subject = subj,
           last_question = None, queue = [] \<rparr> \<and>
   (\<exists>s. SimpleForm_init nm sd fin opt ex chit det (Some r) subj = Inr s \<and>
        update_requirements tr s =
          s\<lparr>current_required :=
              (dom sd \<union> (\<Union>p\<in>set (current_slot_values tr).
                           rule_adds (process_slots r Map.empty) p))
              - (\<Union>p\<in>set (current_slot_values tr).
                   rule_removes (process_slots r Map.empty) p)\<rparr>)"
proof -
  let ?s = "\<lparr> name = nm, slot_dict = sd, current_required = dom sd,
           required_slots = dom sd, optional_slots = opt, exit_dict = ex,
           chitchat_dict = chit, finish_action = fin, details_intent = det,
           rules_yaml = Some r, rules = Some (process_slots r Map.empty), subject = subj,
           last_question = None, queue = [] \<rparr>"
  have i: "SimpleForm_init nm sd fin opt ex chit det (Some r) subj = Inr ?s"
    by (simp add: SimpleForm_init_def process_rules_def)
  have "rules ?s = Some (process_slots r Map.empty)"
    by simp
  from update_requirements_closed_form[OF this, of tr]
  have "update_requirements tr ?s =
          ?s\<lparr>current_required :=
              (dom sd \<union> (\<Union>p\<in>set (current_slot_values tr).
                           rule_adds (process_slots r Map.empty) p))
              - (\<Union>p\<in>set (current_slot_values tr).
                   rule_removes (process_slots r Map.empty) p)\<rparr>"
    by simp
  with i show ?thesis by blast
qed

section \<open>The rule table compiler (claim C9)\<close>


lemma process_values_other:
  "sl' \<noteq> sl \<Longrightarrow> process_values sl vals rd (sl', v) = rd (sl', v)"
  by (induction vals arbitrary: rd) auto

lemma process_values_notin:
  "v \<notin> fst ` set vals \<Longrightarrow> process_values sl vals rd (sl, v) = rd (sl, v)"
  by (induction vals arbitrary: rd) auto

lemma process_values_in:
  "distinct (map fst vals) \<Longrightarrow> (v, lf) \<in> set vals \<Longrightarrow>
   process_values sl vals rd (sl, v) = Some (lf ''need'', lf ''lose'')"
proof (induction vals arbitrary: rd)
  case Nil
  then show ?case by simp
next
  case (Cons p vals)
  obtain v' lf' where p: "p = (v', lf')" by (cases p)
  show ?case
  proof (cases "(v, lf) = p")
    case True
    with Cons.prems p have "v \<notin> fst ` set vals" by auto
    with True p show ?thesis by (simp add: process_values_notin)
  next
    case False
    with Cons.prems have "distinct (map fst vals)" "(v, lf) \<in> set vals" by auto
    from Cons.IH[OF this] p show ?thesis by simp
  qed
qed

lemma process_slots_notin:
  "sl \<notin> fst ` set rs \<Longrightarrow> process_slots rs rd (sl, v) = rd (sl, v)"
  by (induction rs arbitrary: rd) (auto simp: process_values_other)

lemma process_slots_in:
  "distinct (map fst rs) \<Longrightarrow> (sl, vals) \<in> set rs \<Longrightarrow> distinct (map fst vals) \<Longrightarrow>
   (v, lf) \<in> set vals \<Longrightarrow> process_slots rs rd (sl, v) = Some (lf ''need'', lf ''lose'')"
proof (induction rs arbitrary: rd)
  case Nil
  then show ?case by simp
next
  case (Cons p rs)
  obtain sl' vals' where p: "p = (sl', vals')" by (cases p)
  show ?case
  proof (cases "(sl, vals) = p")
    case True
    with Cons.prems p have "sl \<notin> fst ` set rs" by auto
    with True p Cons.prems show ?thesis
      by (simp add: process_slots_notin process_values_in)
  next
    case False
    with Cons.prems have "distinct (map fst rs)" "(sl, vals) \<in> set rs" by auto
    from Cons.IH[OF this Cons.prems(3,4)] p show ?thesis by simp
  qed
qed

text \<open>
  Claim C9, as stated, has an absent \<open>need\<close> or \<open>lose\<close> key compile to the empty list, never
  to \<open>None\<close>. The code stores \<open>rules.get('need')\<close> and \<open>rules.get('lose')\<close>, which are
  \<open>None\<close> for an absent key: the entry of \<open>(mode, car)\<close> in the travel rules, which has no
  \<open>lose\<close> key, has \<open>None\<close> as second component, and the entry of \<open>(origin, Berlin)\<close>,
  which has no \<open>need\<close> key, has \<open>None\<close> as first component.
\<close>

theorem absent_lose_compiles_to_None:
  "map_sum id (\<lambda>t. t (''mode'', Some ''car'')) (process_rules (Some travel_rules))
     = Inr (Some (Some [''license''], None)) \<and>
   map_sum id (\<lambda>t. t (''origin'', Some ''Berlin'')) (process_rules (Some travel_rules))
     = Inr (Some (None, Some [''license'']))"
  by (simp add: process_rules_def travel_table)

text \<open>
  Claim C9, amended: the rule table compiler is a function of the rule specification
  alone (pure and deterministic); it returns a table for every specification, and maps
  every (slot, value) leaf of the nested specification (a dictionary: its keys are
  distinct at both levels) to the pair of what the leaf holds under \<open>need\<close> and under
  \<open>lose\<close>. Where a key is absent the component is \<open>None\<close>, not the empty list; the
  requirement resolver skips a \<open>None\<close> component.
\<close>

theorem process_rules_entry:
  assumes "distinct (map fst rs)"
    and "(sl, vals) \<in> set rs"
    and "distinct (map fst vals)"
    and "(v, lf) \<in> set vals"
  shows "\<exists>table. process_rules (Some rs) = Inr table \<and>
           table (sl, v) = Some (lf ''need'', lf ''lose'')"
  using process_slots_in[OF assms] by (simp add: process_rules_def)

theorem process_rules_entry_witness:
  "map_sum id (\<lambda>t. t (''mode'', Some ''train'')) (process_rules (Some travel_rules))
     = Inr (Some (None, Some [''date'']))"
proof -
  have "distinct (map fst travel_rules)"
    and "(''mode'', [(Some ''car'', [''need'' \<mapsto> [''license'']]),
                  (Some ''train'', [''lose'' \<mapsto> [''date'']]),
                  (None, [''need'' \<mapsto> [''budget'']])]) \<in> set travel_rules"
    and "distinct (map fst [(Some ''car'', [''need'' \<mapsto> [''license'']]),
                  (Some ''train'', [''lose'' \<mapsto> [''date'']]),
                  (None::string option, [''need'' \<mapsto> [''budget'']])])"
    and "(Some ''train'', [''lose'' \<mapsto> [''date'']]) \<in> set [(Some ''car'', [''need'' \<mapsto> [''license'']]),
                  (Some ''train'', [''lose'' \<mapsto> [''date'']]),
                  (None, [''need'' \<mapsto> [''budget'']])]"
    by (simp_all add: travel_rules_def)
  from process_rules_entry[OF this] show ?thesis
    by auto
qed

section \<open>A constructor without rules (claim C10)\<close>

lemma run_through_queue_rules: "rules (snd (run_through_queue dm s)) = rules s"
  by (simp add: run_through_queue_def split: list.splits sum.splits)

lemma next_action_idx_rules: "rules (snd (next_action_idx choice tr dm s)) = rules s"
proof (cases "queue s")
  case (Cons e rest)
  then show ?thesis
    by (simp add: next_action_idx_def run_through_queue_def split: sum.splits)
next
  case Nil
  then have r0: "run_through_queue dm s = (Inr None, s)"
    by (simp add: run_through_queue_def)
  show ?thesis
    unfolding next_action_idx_def r0 Let_def prod.case sum.case option.case
    by (simp add: run_through_queue_rules update_requirements_fields
          split: option.split sum.split)
qed

lemma constructed_has_table: "constructed s \<Longrightarrow> rules s \<noteq> None"
proof (induction rule: constructed.induct)
  case (by_init nm sd fin opt ex chit det rls subj s)
  then show ?case
    by (auto simp: SimpleForm_init_def split: sum.splits)
next
  case (by_call s choice tr dm out s')
  from by_call.hyps(2) have "s' = snd (next_action_idx choice tr dm s)" by simp
  with by_call.IH show ?case by (simp add: next_action_idx_rules)
next
  case (by_update s tr)
  then show ?case by (simp add: update_requirements_fields)
next
  case (by_run s dm out s')
  from by_run.hyps(2) have "s' = snd (run_through_queue dm s)" by simp
  with by_run.IH show ?case by (simp add: run_through_queue_rules)
qed

text \<open>
  Claim C10: a constructor call whose \<open>rules\<close> argument is \<open>None\<close> (the default of the
  parameter) raises: \<open>_process_rules\<close> calls \<open>rules.items()\<close> at once, an \<open>AttributeError\<close>.
  So every instance that exists, built by the constructor and changed by calls of
  \<open>next_action_idx\<close>, holds a rule table, and on such an instance \<open>_update_requirements\<close>
  never returns at its \<open>None\<close> guard: it assigns the recomputed set.
\<close>

theorem init_without_rules_raises:
  "SimpleForm_init nm sd fin opt ex chit det None subj
     = (Inl AttributeError :: error + 'v SimpleForm) \<and>
   (constructed (s :: 'v SimpleForm) \<longrightarrow>
      (\<exists>rd. rules s = Some rd \<and>
         update_requirements tr s =
           s\<lparr>current_required :=
               (required_slots s \<union> (\<Union>p\<in>set (current_slot_values tr). rule_adds rd p))
               - (\<Union>p\<in>set (current_slot_values tr). rule_removes rd p)\<rparr>))"
proof -
  have "SimpleForm_init nm sd fin opt ex chit det None subj
          = (Inl AttributeError :: error + 'v SimpleForm)"
    by (simp add: SimpleForm_init_def process_rules_def)
  moreover have "\<exists>rd. rules s = Some rd \<and>
         update_requirements tr s =
           s\<lparr>current_required :=
               (required_slots s \<union> (\<Union>p\<in>set (current_slot_values tr). rule_adds rd p))
               - (\<Union>p\<in>set (current_slot_values tr). rule_removes rd p)\<rparr>"
    if "constructed s"
  proof -
    from constructed_has_table[OF that] obtain rd where "rules s = Some rd" by auto
    with update_requirements_closed_form[OF this, of tr] show ?thesis by simp
  qed
  ultimately show ?thesis by simp
qed

theorem init_without_rules_raises_witness:
  "SimpleForm_init ''travel'' travel_slots ''action_book'' (Some [''budget''])
     (Some travel_exit) (Some travel_chitchat) (Some [''explain'', ''cancel''])
     (None :: string rules_spec option) None = Inl AttributeError \<and>
   constructed travel_form \<and>
   rules travel_form = Some (process_slots travel_rules Map.empty) \<and>
   current_required (update_requirements tracker_car travel_form)
     = {''origin'', ''mode'', ''date'', ''license''}"
proof -
  have c: "constructed travel_form"
    by (rule constructed.by_init[OF travel_form_init])
  have r: "rules travel_form = Some (process_slots travel_rules Map.empty)"
    by (simp add: travel_form_def)
  from init_without_rules_raises[of "''travel''" travel_slots "''action_book''"
      "Some [''budget'']" "Some travel_exit" "Some travel_chitchat"
      "Some [''explain'', ''cancel'']" None travel_form tracker_car] c r
  have i: "SimpleForm_init ''travel'' travel_slots ''action_book'' (Some [''budget''])
     (Some travel_exit) (Some travel_chitchat) (Some [''explain'', ''cancel''])
     (None :: string rules_spec option) None = Inl AttributeError"
    and u: "update_requirements tracker_car travel_form =
           travel_form\<lparr>current_required :=
               (required_slots travel_form \<union>
                  (\<Union>p\<in>set (current_slot_values tracker_car).
                      rule_adds (process_slots travel_rules Map.empty) p))
               - (\<Union>p\<in>set (current_slot_values tracker_car).
                      rule_removes (process_slots travel_rules Map.empty) p)\<rparr>"
    by simp_all
  have "current_required (update_requirements tracker_car travel_form)
     = {''origin'', ''mode'', ''date'', ''license''}"
    unfolding u
    by (auto simp: travel_form_def travel_table tracker_car_def rule_adds_def rule_removes_def
          travel_slots_def)
  with i c r show ?thesis by simp
qed

end
